theory Spec2Isabelle
  imports Main "HOL-Library.Word"
begin

unbundle bit_operations_syntax

section \<open>Python values and library functions the converter relies on\<close>

text \<open>
  The converter (\<^verbatim>\<open>image_converter.py\<close>) is Python.  Python \<^verbatim>\<open>int\<close> is \<^typ>\<open>int\<close>,
  \<^verbatim>\<open>str\<close> is \<^typ>\<open>string\<close> (ASCII file names), an exception is a value of
  \<open>py_error\<close>.  A \<^verbatim>\<open>pathlib.Path\<close> is the list of its components; the last
  component is the file name.
\<close>

datatype py_error = IndexError | ValueError | FileNotFoundError | OSError

type_synonym u8 = "8 word"

type_synonym path = "string list"

subsection \<open>\<^verbatim>\<open>str\<close> methods\<close>

definition isalpha :: "char \<Rightarrow> bool" where
  "isalpha c =
     (let n = (of_char c :: nat) in (65 \<le> n \<and> n \<le> 90) \<or> (97 \<le> n \<and> n \<le> 122))"

definition upper_char :: "char \<Rightarrow> char" where
  "upper_char c =
     (let n = (of_char c :: nat) in if 97 \<le> n \<and> n \<le> 122 then char_of (n - 32) else c)"

definition lower_char :: "char \<Rightarrow> char" where
  "lower_char c =
     (let n = (of_char c :: nat) in if 65 \<le> n \<and> n \<le> 90 then char_of (n + 32) else c)"

definition upper :: "string \<Rightarrow> string" where
  "upper s = map upper_char s"

definition lower :: "string \<Rightarrow> string" where
  "lower s = map lower_char s"

text \<open>\<^verbatim>\<open>s.replace(old, new)\<close> for one-character \<^verbatim>\<open>old\<close> and \<^verbatim>\<open>new\<close>.\<close>

definition replace :: "char \<Rightarrow> char \<Rightarrow> string \<Rightarrow> string" where
  "replace old new s = map (\<lambda>c. if c = old then new else c) s"

text \<open>\<^verbatim>\<open>sep.join(xs)\<close>.\<close>

fun join :: "string \<Rightarrow> string list \<Rightarrow> string" where
  "join sep [] = []"
| "join sep [x] = x"
| "join sep (x # y # ys) = x @ sep @ join sep (y # ys)"

text \<open>\<^verbatim>\<open>s.rfind(c)\<close>: the index of the last occurrence, \<open>-1\<close> when there is none.\<close>

fun rfind :: "char \<Rightarrow> string \<Rightarrow> int" where
  "rfind c [] = -1"
| "rfind c (x # xs) =
     (let r = rfind c xs in if 0 \<le> r then r + 1 else if x = c then 0 else -1)"

subsection \<open>Number formatting\<close>

text \<open>\<^verbatim>\<open>f"{n}"\<close> for a non-negative \<^verbatim>\<open>int\<close>.\<close>

fun str_nat :: "nat \<Rightarrow> string" where
  "str_nat n =
     (if n < 10 then [''0123456789'' ! n]
      else str_nat (n div 10) @ [''0123456789'' ! (n mod 10)])"

text \<open>\<^verbatim>\<open>f"{n:X}"\<close> and \<^verbatim>\<open>f"{n:04X}"\<close>: upper-case hexadecimal, padded with zeros to at
  least four digits.\<close>

fun hex_upper :: "nat \<Rightarrow> string" where
  "hex_upper n =
     (if n < 16 then [''0123456789ABCDEF'' ! n]
      else hex_upper (n div 16) @ [''0123456789ABCDEF'' ! (n mod 16)])"

definition format_04X :: "nat \<Rightarrow> string" where
  "format_04X n = replicate (4 - length (hex_upper n)) (CHR ''0'') @ hex_upper n"

subsection \<open>\<^verbatim>\<open>pathlib\<close>\<close>

definition name_of :: "path \<Rightarrow> string" where
  "name_of p = (if p = [] then [] else last p)"

definition suffix :: "string \<Rightarrow> string" where
  "suffix name =
     (let i = rfind (CHR ''.'') name
      in if 0 < i \<and> i < int (length name) - 1 then drop (nat i) name else [])"

definition stem :: "string \<Rightarrow> string" where
  "stem name =
     (let i = rfind (CHR ''.'') name
      in if 0 < i \<and> i < int (length name) - 1 then take (nat i) name else name)"

text \<open>\<^verbatim>\<open>p.with_suffix(sfx)\<close> for a well-formed \<^verbatim>\<open>sfx\<close> (the converter passes
  \<^verbatim>\<open>'.h'\<close>); a path with an empty name raises \<^verbatim>\<open>ValueError\<close>.\<close>

definition with_suffix :: "string \<Rightarrow> path \<Rightarrow> py_error + path" where
  "with_suffix sfx p =
     (let name = name_of p in
      if name = [] then Inl ValueError
      else let old_suffix = suffix name in
        Inr (butlast p @
          [if old_suffix = [] then name @ sfx
           else take (length name - length old_suffix) name @ sfx]))"

section \<open>Pixel packer\<close>

text \<open>
  \<^verbatim>\<open>rgb888_to_rgb565(self, r, g, b)\<close> is
  \<^verbatim>\<open>((r & 0xF8) << 8) | ((g & 0xFC) << 3) | (b >> 3)\<close>.  Python is dynamically typed, so
  what the expression computes depends on its operands:
  \<^item> on Python \<^verbatim>\<open>int\<close> operands it is unbounded integer arithmetic: \<open>rgb888_to_rgb565\<close>;
  \<^item> at its only call site the operands are the \<^verbatim>\<open>numpy.uint8\<close> scalars of
    \<^verbatim>\<open>img_array[y, x]\<close>.  Under NumPy's promotion rules since 2.0 (NEP 50) a Python
    \<^verbatim>\<open>int\<close> literal that fits adopts the type of the NumPy scalar, so every operation
    is carried out in \<^verbatim>\<open>uint8\<close> and a left shift wraps at eight bits (a shift by the
    full width gives 0): \<open>rgb888_to_rgb565_u8\<close>.  (NumPy before 2.0 widened such a pair
    of scalars to \<^verbatim>\<open>int64\<close>, where the first reading applies.)
\<close>

definition rgb888_to_rgb565 :: "int \<Rightarrow> int \<Rightarrow> int \<Rightarrow> int" where
  "rgb888_to_rgb565 r g b =
     (push_bit 8 (r AND 0xF8)) OR (push_bit 3 (g AND 0xFC)) OR (drop_bit 3 b)"

definition rgb888_to_rgb565_u8 :: "u8 \<Rightarrow> u8 \<Rightarrow> u8 \<Rightarrow> u8" where
  "rgb888_to_rgb565_u8 r g b =
     (push_bit 8 (r AND 0xF8)) OR (push_bit 3 (g AND 0xFC)) OR (drop_bit 3 b)"

section \<open>Identifier derivation and artifact text\<close>

text \<open>
  Lines 55 to 58 of \<^verbatim>\<open>image_to_c_array\<close>: the variable name is the stem with hyphens
  and spaces replaced; \<^verbatim>\<open>var_name[0]\<close> raises \<^verbatim>\<open>IndexError\<close> on the empty string.
\<close>

definition derive_var_name :: "string \<Rightarrow> py_error + string" where
  "derive_var_name st =
     (let var_name = replace (CHR '' '') (CHR ''_'') (replace (CHR ''-'') (CHR ''_'') st) in
      case var_name of
        [] \<Rightarrow> Inl IndexError
      | c # _ \<Rightarrow>
          if \<not> isalpha c \<and> c \<noteq> CHR ''_'' then Inr (''img_'' @ var_name) else Inr var_name)"

text \<open>
  A decoded image: \<^verbatim>\<open>img.size\<close> and the array \<^verbatim>\<open>np.array(img)\<close> of shape
  (height, width, 3), read at \<^verbatim>\<open>[y, x]\<close>.  The loops read it only inside its shape.
\<close>

record image =
  size_width :: nat
  size_height :: nat
  img_array :: "nat \<Rightarrow> nat \<Rightarrow> u8 \<times> u8 \<times> u8"

text \<open>The inner loop over \<^verbatim>\<open>x\<close>: the literals of row \<^verbatim>\<open>y\<close>.\<close>

definition row_pixels :: "image \<Rightarrow> nat \<Rightarrow> string list" where
  "row_pixels img y =
     map (\<lambda>x. case img_array img y x of
                 (r, g, b) \<Rightarrow> ''0x'' @ format_04X (unat (rgb888_to_rgb565_u8 r g b)))
         [0..<size_width img]"

text \<open>The outer loop over \<^verbatim>\<open>y\<close>: one line per row.\<close>

definition pixels :: "image \<Rightarrow> string list" where
  "pixels img =
     map (\<lambda>y. if int y < int (size_height img) - 1
               then ''    '' @ join '', '' (row_pixels img y) @ '',''
               else ''    '' @ join '', '' (row_pixels img y))
         [0..<size_height img]"

definition c_content :: "string \<Rightarrow> string \<Rightarrow> image \<Rightarrow> string list" where
  "c_content file_name var_name img =
     (let width = size_width img; height = size_height img in
      [''/*'',
       '' * Generated from: '' @ file_name,
       '' * Image size: '' @ str_nat width @ ''x'' @ str_nat height @ '' pixels'',
       '' * Format: RGB565'',
       '' */'',
       '''',
       ''#pragma once'',
       ''#include <stdint.h>'',
       '''',
       ''#define '' @ upper var_name @ ''_WIDTH  '' @ str_nat width,
       ''#define '' @ upper var_name @ ''_HEIGHT '' @ str_nat height,
       '''',
       ''const uint16_t '' @ var_name @ ''_data['' @ str_nat (width * height) @ ''] = {'']
      @ pixels img @
      [''};'',
       '''',
       ''typedef struct {'',
       ''    const uint16_t* data;'',
       ''    uint16_t width;'',
       ''    uint16_t height;'',
       ''} '' @ var_name @ ''_t;'',
       '''',
       ''const '' @ var_name @ ''_t '' @ var_name @ '' = {'',
       ''    .data = '' @ var_name @ ''_data,'',
       ''    .width = '' @ upper var_name @ ''_WIDTH,'',
       ''    .height = '' @ upper var_name @ ''_HEIGHT'',
       ''};''])"

text \<open>
  \<^verbatim>\<open>image_to_c_array(self, image_path)\<close>.  The decoder (\<^verbatim>\<open>Image.open\<close>,
  \<^verbatim>\<open>convert('RGB')\<close>, \<^verbatim>\<open>np.array\<close>) is a parameter: \<open>None\<close> when it raises.  Every
  exception inside the function is caught and turned into \<^verbatim>\<open>None\<close>.
\<close>

definition image_to_c_array :: "(path \<Rightarrow> image option) \<Rightarrow> path \<Rightarrow> string option" where
  "image_to_c_array decode image_path =
     (case decode image_path of
        None \<Rightarrow> None
      | Some img \<Rightarrow>
          (case derive_var_name (stem (name_of image_path)) of
             Inl e \<Rightarrow> None
           | Inr var_name \<Rightarrow>
               Some (join [CHR 0x0A] (c_content (name_of image_path) var_name img))))"

section \<open>Tree converter\<close>

text \<open>
  What the run can observe of the world, and what it changes.  The file system and the
  decoding library are collaborators outside the program; their answers are the fields of
  \<open>env\<close>:
  \<^item> \<open>exists\<close>: \<^verbatim>\<open>Path.exists()\<close>;
  \<^item> \<open>walk\<close>: the files \<^verbatim>\<open>os.walk(self.source_dir)\<close> yields, in the order of the two
    nested loops, each as the pair of its directory \<^verbatim>\<open>root\<close> (the components below the
    source directory) and its name \<^verbatim>\<open>file\<close>;
  \<^item> \<open>decode\<close>: the decoded RGB image of a file, \<open>None\<close> when decoding raises;
  \<^item> \<open>mkdir_ok\<close>: whether \<^verbatim>\<open>mkdir(parents=True, exist_ok=True)\<close> succeeds;
  \<^item> \<open>write_file\<close>: what \<^verbatim>\<open>open(output_file, 'w')\<close> and \<^verbatim>\<open>f.write\<close> do at a path.
\<close>

datatype write_outcome =
    Written
  | OpenFailed
  | WriteFailed string

record env =
  exists :: "path \<Rightarrow> bool"
  walk :: "(path \<times> string) list"
  decode :: "path \<Rightarrow> image option"
  mkdir_ok :: "path \<Rightarrow> bool"
  write_file :: "path \<Rightarrow> write_outcome"

text \<open>The lines the program prints, one constructor per \<^verbatim>\<open>print\<close> call.\<close>

datatype diag =
    Converting path
  | ErrorProcessing path
  | Generated path
  | ErrorConverting path
  | Scanning path path
  | ConversionComplete nat nat
  | ErrorNotFound
  | UnexpectedError

record world =
  files :: "path \<rightharpoonup> string"
  stdout :: "diag list"

definition emit :: "diag \<Rightarrow> world \<Rightarrow> world" where
  "emit d w = w\<lparr>stdout := stdout w @ [d]\<rparr>"

definition SUPPORTED_FORMATS :: "string set" where
  "SUPPORTED_FORMATS = {''.png'', ''.jpg'', ''.jpeg'', ''.bmp'', ''.gif'', ''.tiff''}"

text \<open>The test of line 158: \<^verbatim>\<open>file_path.suffix.lower() in self.SUPPORTED_FORMATS\<close>.\<close>

definition supported :: "path \<Rightarrow> bool" where
  "supported file_path \<longleftrightarrow> lower (suffix (name_of file_path)) \<in> SUPPORTED_FORMATS"

text \<open>Line 125: \<^verbatim>\<open>output_file = self.output_dir / relative_path.with_suffix('.h')\<close>.\<close>

definition output_file :: "path \<Rightarrow> path \<Rightarrow> py_error + path" where
  "output_file output_dir relative_path =
     (case with_suffix ''.h'' relative_path of
        Inl err \<Rightarrow> Inl err
      | Inr rel_h \<Rightarrow> Inr (output_dir @ rel_h))"

text \<open>
  \<^verbatim>\<open>convert_image_file(self, image_path, relative_path)\<close>: the result and the world
  after it.  The diagnostic of a failed \<^verbatim>\<open>image_to_c_array\<close> is printed here, where its
  \<^verbatim>\<open>None\<close> is seen.  Every exception of the body is caught and gives \<^verbatim>\<open>False\<close>.
\<close>

definition convert_image_file ::
  "env \<Rightarrow> path \<Rightarrow> path \<Rightarrow> path \<Rightarrow> world \<Rightarrow> bool \<times> world" where
  "convert_image_file e output_dir image_path relative_path w =
     (let w1 = emit (Converting relative_path) w in
      case image_to_c_array (decode e) image_path of
        None \<Rightarrow> (False, emit (ErrorProcessing image_path) w1)
      | Some text \<Rightarrow>
          (case output_file output_dir relative_path of
             Inl err \<Rightarrow> (False, emit (ErrorConverting image_path) w1)
           | Inr out_file \<Rightarrow>
               (if \<not> mkdir_ok e (butlast out_file)
                then (False, emit (ErrorConverting image_path) w1)
                else
                  (case write_file e out_file of
                     Written \<Rightarrow>
                       (True, emit (Generated out_file)
                                (w1\<lparr>files := (files w1)(out_file \<mapsto> text)\<rparr>))
                   | OpenFailed \<Rightarrow> (False, emit (ErrorConverting image_path) w1)
                   | WriteFailed part \<Rightarrow>
                       (False, emit (ErrorConverting image_path)
                                 (w1\<lparr>files := (files w1)(out_file \<mapsto> part)\<rparr>))))))"

text \<open>The loop of \<^verbatim>\<open>scan_and_convert\<close> over the walked files, with the two counters.\<close>

fun scan_files ::
  "env \<Rightarrow> path \<Rightarrow> path \<Rightarrow> (path \<times> string) list \<Rightarrow> nat \<times> nat \<times> world
     \<Rightarrow> nat \<times> nat \<times> world" where
  "scan_files e source_dir output_dir [] st = st"
| "scan_files e source_dir output_dir ((root, file) # rest) (converted_count, error_count, w) =
     (let file_path = source_dir @ root @ [file] in
      if supported file_path then
        (let relative_path = root @ [file] in
         case convert_image_file e output_dir file_path relative_path w of
           (True, w') \<Rightarrow>
             scan_files e source_dir output_dir rest (converted_count + 1, error_count, w')
         | (False, w') \<Rightarrow>
             scan_files e source_dir output_dir rest (converted_count, error_count + 1, w'))
      else scan_files e source_dir output_dir rest (converted_count, error_count, w))"

definition scan_and_convert :: "env \<Rightarrow> path \<Rightarrow> path \<Rightarrow> world \<Rightarrow> (nat \<times> nat) \<times> world" where
  "scan_and_convert e source_dir output_dir w =
     (case scan_files e source_dir output_dir (walk e)
             (0, 0, emit (Scanning source_dir output_dir) w) of
        (converted_count, error_count, w') \<Rightarrow>
          ((converted_count, error_count),
           emit (ConversionComplete converted_count error_count) w'))"

section \<open>Command line\<close>

record args =
  source_dir :: path
  output_dir :: path
  verbose :: bool

text \<open>\<^verbatim>\<open>ImageConverter.__init__\<close>: the check of the source directory, then the creation
  of the output directory.\<close>

definition init :: "env \<Rightarrow> path \<Rightarrow> path \<Rightarrow> py_error + unit" where
  "init e src out =
     (if \<not> exists e src then Inl FileNotFoundError
      else if \<not> mkdir_ok e out then Inl OSError
      else Inr ())"

text \<open>The body of the \<^verbatim>\<open>try\<close> in \<^verbatim>\<open>main\<close>, up to the test of \<^verbatim>\<open>errors\<close>.\<close>

definition run :: "env \<Rightarrow> args \<Rightarrow> world \<Rightarrow> (py_error + nat \<times> nat) \<times> world" where
  "run e a w =
     (case init e (source_dir a) (output_dir a) of
        Inl err \<Rightarrow> (Inl err, w)
      | Inr converter \<Rightarrow>
          (case scan_and_convert e (source_dir a) (output_dir a) w of
             (tally, w') \<Rightarrow> (Inr tally, w')))"

text \<open>
  The exit status \<^verbatim>\<open>main\<close> ends with, for an outcome of the \<^verbatim>\<open>try\<close> body:
  \<^verbatim>\<open>sys.exit(1)\<close> when \<^verbatim>\<open>errors > 0\<close> (\<^verbatim>\<open>SystemExit\<close> passes both handlers), 0 when
  \<^verbatim>\<open>main\<close> returns, and \<^verbatim>\<open>sys.exit(1)\<close> in either handler.
\<close>

definition exit_status :: "py_error + nat \<times> nat \<Rightarrow> nat" where
  "exit_status outcome =
     (case outcome of
        Inr (converted, errors) \<Rightarrow> if errors > 0 then 1 else 0
      | Inl err \<Rightarrow> 1)"

definition main :: "env \<Rightarrow> args \<Rightarrow> world \<Rightarrow> nat \<times> world" where
  "main e a w =
     (case run e a w of
        (Inr tally, w') \<Rightarrow> (exit_status (Inr tally), w')
      | (Inl err, w') \<Rightarrow>
          (exit_status (Inl err),
           emit (if err = FileNotFoundError then ErrorNotFound else UnexpectedError) w'))"

section \<open>Vocabulary of the properties\<close>

text \<open>The eligible files of a walk: those that pass the test of line 158.\<close>

definition eligible :: "path \<Rightarrow> (path \<times> string) list \<Rightarrow> (path \<times> string) list" where
  "eligible src fs = filter (\<lambda>(root, file). supported (src @ root @ [file])) fs"

text \<open>
  What one call of \<open>convert_image_file\<close> on a walked file returns, and what it leaves in
  the file system, both read off the call itself in an empty world.
\<close>

definition succeeds :: "env \<Rightarrow> path \<Rightarrow> path \<Rightarrow> path \<times> string \<Rightarrow> bool" where
  "succeeds e src out f =
     (case f of (root, file) \<Rightarrow>
        fst (convert_image_file e out (src @ root @ [file]) (root @ [file])
               \<lparr>files = Map.empty, stdout = []\<rparr>))"

definition leaves :: "env \<Rightarrow> path \<Rightarrow> path \<Rightarrow> path \<times> string \<Rightarrow> (path \<rightharpoonup> string)" where
  "leaves e src out f =
     (case f of (root, file) \<Rightarrow>
        files (snd (convert_image_file e out (src @ root @ [file]) (root @ [file])
                      \<lparr>files = Map.empty, stdout = []\<rparr>)))"

text \<open>What a whole run leaves: the files of the eligible files, later ones over earlier.\<close>

definition written :: "env \<Rightarrow> path \<Rightarrow> path \<Rightarrow> (path \<times> string) list \<Rightarrow> (path \<rightharpoonup> string)" where
  "written e src out fs =
     foldr (\<lambda>f m. leaves e src out f ++ m) (eligible src fs) Map.empty"

text \<open>
  A decode failure or a write failure of a walked file: the decoder raises, or the output
  directory cannot be created, or the output file cannot be opened or written.
\<close>

definition conversion_fails :: "env \<Rightarrow> path \<Rightarrow> path \<Rightarrow> path \<times> string \<Rightarrow> bool" where
  "conversion_fails e src out f =
     (case f of (root, file) \<Rightarrow>
        decode e (src @ root @ [file]) = None \<or>
        \<not> mkdir_ok e (out @ root) \<or>
        write_file e (out @ root @ [stem file @ ''.h'']) \<noteq> Written)"

text \<open>
  The values that the loops of lines 77 to 83 format, in the order of the loops (row by
  row, left to right): entry \<open>y * width + x\<close> is what the call of line 82 returns for the
  pixel \<^verbatim>\<open>img_array[y, x]\<close>.
\<close>

definition pixel_values :: "image \<Rightarrow> nat list" where
  "pixel_values img =
     map (\<lambda>i. case img_array img (i div size_width img) (i mod size_width img) of
                 (r, g, b) \<Rightarrow> unat (rgb888_to_rgb565_u8 r g b))
         [0..<size_width img * size_height img]"

section \<open>The artifact layout of the specification\<close>

text \<open>
  Section 4.3 of the specification describes the artifact by its parts.  The definitions
  below follow that description, with the packed pixel buffer as a flat row-major list;
  they are compared with \<open>c_content\<close>, which follows the source.
\<close>

text \<open>
  The Pixel Packer of section 4.1: from three 8-bit channel values one 16-bit value,
  \<^verbatim>\<open>(red & 0xF8) << 8 | (green & 0xFC) << 3 | (blue >> 3)\<close>.  The Packed Pixel Buffer of
  section 3 has one such value per pixel, row 0 first and left to right within a row.
\<close>

definition spec_pixel_packer :: "u8 \<Rightarrow> u8 \<Rightarrow> u8 \<Rightarrow> nat" where
  "spec_pixel_packer r g b =
     nat ((push_bit 8 (uint r AND 0xF8)) OR (push_bit 3 (uint g AND 0xFC)) OR (drop_bit 3 (uint b)))"

definition spec_packed_buffer :: "image \<Rightarrow> nat list" where
  "spec_packed_buffer img =
     map (\<lambda>i. case img_array img (i div size_width img) (i mod size_width img) of
                 (r, g, b) \<Rightarrow> spec_pixel_packer r g b)
         [0..<size_width img * size_height img]"

definition spec_hex_digit :: "nat \<Rightarrow> char" where
  "spec_hex_digit d = ''0123456789ABCDEF'' ! d"

definition spec_hex_literal :: "nat \<Rightarrow> string" where
  "spec_hex_literal v =
     ''0x'' @ [spec_hex_digit (v div 4096 mod 16), spec_hex_digit (v div 256 mod 16),
              spec_hex_digit (v div 16 mod 16), spec_hex_digit (v mod 16)]"

definition spec_initializer_rows :: "nat \<Rightarrow> nat \<Rightarrow> nat list \<Rightarrow> string list" where
  "spec_initializer_rows w h buf =
     map (\<lambda>y. ''    '' @ join '', '' (map (\<lambda>x. spec_hex_literal (buf ! (y * w + x))) [0..<w]) @
               (if y + 1 < h then '','' else ''''))
         [0..<h]"

definition spec_provenance_comment :: "string \<Rightarrow> nat \<Rightarrow> nat \<Rightarrow> string list" where
  "spec_provenance_comment file_name w h =
     [''/*'',
      '' * Generated from: '' @ file_name,
      '' * Image size: '' @ str_nat w @ ''x'' @ str_nat h @ '' pixels'',
      '' * Format: RGB565'',
      '' */'']"

definition spec_inclusion_guard :: "string list" where
  "spec_inclusion_guard = [''#pragma once'']"

definition spec_dimension_constants :: "string \<Rightarrow> nat \<Rightarrow> nat \<Rightarrow> string list" where
  "spec_dimension_constants ident w h =
     [''#define '' @ upper ident @ ''_WIDTH  '' @ str_nat w,
      ''#define '' @ upper ident @ ''_HEIGHT '' @ str_nat h]"

definition spec_array_declaration :: "string \<Rightarrow> nat \<Rightarrow> string list \<Rightarrow> string list" where
  "spec_array_declaration ident n rows =
     [''const uint16_t '' @ ident @ ''_data['' @ str_nat n @ ''] = {''] @ rows @ [''};'']"

definition spec_aggregate_type :: "string \<Rightarrow> string list" where
  "spec_aggregate_type ident =
     [''typedef struct {'',
      ''    const uint16_t* data;'',
      ''    uint16_t width;'',
      ''    uint16_t height;'',
      ''} '' @ ident @ ''_t;'']"

definition spec_instance :: "string \<Rightarrow> string list" where
  "spec_instance ident =
     [''const '' @ ident @ ''_t '' @ ident @ '' = {'',
      ''    .data = '' @ ident @ ''_data,'',
      ''    .width = '' @ upper ident @ ''_WIDTH,'',
      ''    .height = '' @ upper ident @ ''_HEIGHT'',
      ''};'']"

text \<open>The parts in order; the include of \<^verbatim>\<open>stdint.h\<close> follows the guard, and empty lines
  separate the parts.\<close>

definition spec_artifact :: "string \<Rightarrow> string \<Rightarrow> nat \<Rightarrow> nat \<Rightarrow> nat list \<Rightarrow> string list" where
  "spec_artifact file_name ident w h buf =
     spec_provenance_comment file_name w h @ [''''] @
     spec_inclusion_guard @ [''#include <stdint.h>'', ''''] @
     spec_dimension_constants ident w h @ [''''] @
     spec_array_declaration ident (w * h) (spec_initializer_rows w h buf) @ [''''] @
     spec_aggregate_type ident @ [''''] @
     spec_instance ident"

section \<open>A small source tree\<close>

text \<open>
  A tree to evaluate the converter on: \<^verbatim>\<open>images/logo.png\<close>, \<^verbatim>\<open>images/notes.txt\<close>,
  \<^verbatim>\<open>images/icons/my-icon.JPG\<close> and \<^verbatim>\<open>images/icons/broken.gif\<close>, the last one not
  decodable; every directory can be created and every file written.
\<close>

definition example_image :: image where
  "example_image =
     \<lparr>size_width = 2, size_height = 2,
      img_array = (\<lambda>y x. if y = 0 \<and> x = 0 then (0, 0, 255)
                         else (0, 0, of_nat (16 * (2 * y + x))))\<rparr>"

text \<open>The image of one red pixel.\<close>

definition red_image :: image where
  "red_image = \<lparr>size_width = 1, size_height = 1, img_array = (\<lambda>y x. (255, 0, 0))\<rparr>"

definition example_env :: env where
  "example_env =
     \<lparr>exists = (\<lambda>p. p = [''images'']),
      walk = [([], ''logo.png''), ([], ''notes.txt''),
              ([''icons''], ''my-icon.JPG''), ([''icons''], ''broken.gif'')],
      decode = (\<lambda>p. if p = [''images'', ''icons'', ''broken.gif''] then None
                     else Some example_image),
      mkdir_ok = (\<lambda>p. True),
      write_file = (\<lambda>p. Written)\<rparr>"

definition empty_world :: world where
  "empty_world = \<lparr>files = Map.empty, stdout = []\<rparr>"

section \<open>Evaluation rules\<close>

declare hex_upper.simps [simp del]

declare str_nat.simps [simp del]

lemma replicate_numeral_unfold: "replicate (numeral k) x = x # replicate (pred_numeral k) x"
  by (simp add: numeral_eq_Suc)

section \<open>The pixel packer on Python integers\<close>

lemma mask_F8: "(0xF8::int) = push_bit 3 (mask 5)"
  by (simp add: mask_eq_exp_minus_1)

lemma mask_FC: "(0xFC::int) = push_bit 2 (mask 6)"
  by (simp add: mask_eq_exp_minus_1)

lemma byte_bit:
  assumes "0 \<le> (r::int)" "r < 256" "bit r n"
  shows "n < 8"
proof -
  have "take_bit 8 r = r" using assms by (simp add: take_bit_int_eq_self)
  then have "bit (take_bit 8 r) n" using assms by simp
  then show ?thesis by (simp add: bit_take_bit_iff)
qed

lemma rgb888_to_rgb565_fields:
  assumes "0 \<le> r" "r < 256" "0 \<le> g" "g < 256" "0 \<le> b" "b < 256"
  shows "rgb888_to_rgb565 r g b =
    push_bit 11 (drop_bit 3 r) OR push_bit 5 (drop_bit 2 g) OR drop_bit 3 b"
proof (rule bit_eqI)
  fix n :: nat
  consider "n < 5" | k where "n = 5 + k" "k < 6" | k where "n = 11 + k"
  proof -
    have "n < 5 \<or> (n = 5 + (n - 5) \<and> n - 5 < 6) \<or> n = 11 + (n - 11)" by arith
    then show ?thesis using that by blast
  qed
  then show "bit (rgb888_to_rgb565 r g b) n =
      bit (push_bit 11 (drop_bit 3 r) OR push_bit 5 (drop_bit 2 g) OR drop_bit 3 b) n"
  proof cases
    case 1
    then show ?thesis using assms unfolding rgb888_to_rgb565_def mask_F8 mask_FC
      by (auto simp add: bit_simps dest: byte_bit)
  next
    case 2
    then show ?thesis using assms unfolding rgb888_to_rgb565_def mask_F8 mask_FC
      by (auto simp add: bit_simps dest: byte_bit)
  next
    case 3
    then show ?thesis using assms unfolding rgb888_to_rgb565_def mask_F8 mask_FC
      by (auto simp add: bit_simps dest: byte_bit)
  qed
qed

lemma rgb888_to_rgb565_red:
  assumes "0 \<le> r" "r < 256" "0 \<le> g" "g < 256" "0 \<le> b" "b < 256"
  shows "drop_bit 11 (rgb888_to_rgb565 r g b) = drop_bit 3 r"
  unfolding rgb888_to_rgb565_fields [OF assms]
  by (rule bit_eqI) (use assms in \<open>auto simp add: bit_simps dest: byte_bit\<close>)

lemma rgb888_to_rgb565_green:
  assumes "0 \<le> r" "r < 256" "0 \<le> g" "g < 256" "0 \<le> b" "b < 256"
  shows "take_bit 6 (drop_bit 5 (rgb888_to_rgb565 r g b)) = drop_bit 2 g"
  unfolding rgb888_to_rgb565_fields [OF assms]
  by (rule bit_eqI) (use assms in \<open>auto simp add: bit_simps dest: byte_bit\<close>)

lemma rgb888_to_rgb565_blue:
  assumes "0 \<le> r" "r < 256" "0 \<le> g" "g < 256" "0 \<le> b" "b < 256"
  shows "take_bit 5 (rgb888_to_rgb565 r g b) = drop_bit 3 b"
  unfolding rgb888_to_rgb565_fields [OF assms]
  by (rule bit_eqI) (use assms in \<open>auto simp add: bit_simps dest: byte_bit\<close>)

lemma rgb888_to_rgb565_16_bits:
  assumes "0 \<le> r" "r < 256" "0 \<le> g" "g < 256" "0 \<le> b" "b < 256"
  shows "0 \<le> rgb888_to_rgb565 r g b \<and> rgb888_to_rgb565 r g b < 65536"
proof -
  have eq: "take_bit 16 (rgb888_to_rgb565 r g b) = rgb888_to_rgb565 r g b"
    unfolding rgb888_to_rgb565_fields [OF assms]
    by (rule bit_eqI) (use assms in \<open>auto simp add: bit_simps dest: byte_bit\<close>)
  have "0 \<le> take_bit 16 (rgb888_to_rgb565 r g b) \<and>
        take_bit 16 (rgb888_to_rgb565 r g b) < 2 ^ 16"
    by (simp only: take_bit_nonnegative take_bit_int_less_exp)
  then show ?thesis unfolding eq by simp
qed

lemma rgb888_to_rgb565_examples:
  "rgb888_to_rgb565 255 0 0 = 0xF800"
  "rgb888_to_rgb565 0 255 0 = 0x07E0"
  "rgb888_to_rgb565 0 0 255 = 0x001F"
  "rgb888_to_rgb565 255 255 255 = 0xFFFF"
  "rgb888_to_rgb565 0 0 0 = 0x0000"
  by (simp_all add: rgb888_to_rgb565_def)

section \<open>The pixel packer at its call site\<close>

lemma rgb888_to_rgb565_u8_drops_red:
  "rgb888_to_rgb565_u8 r g b = push_bit 3 (g AND 0xFC) OR drop_bit 3 b"
  by (simp add: rgb888_to_rgb565_u8_def)

lemma rgb888_to_rgb565_u8_below_256: "unat (rgb888_to_rgb565_u8 r g b) < 256"
  using unsigned_less [of "rgb888_to_rgb565_u8 r g b", where 'a = nat] by simp

text \<open>
  C1.  The packer keeps the top five bits of red, the top six of green and the top five
  of blue in a 16-bit value, so that a pure red pixel (255, 0, 0) becomes 0xF800.  That
  is what the expression gives on Python integers.  On the 8-bit unsigned components the
  call site passes, the shifts stay in eight bits: the red pixel becomes 0, and the row
  of a one-pixel red image is written as 0x0000.
\<close>

theorem rgb888_to_rgb565_call_site_red:
  "rgb888_to_rgb565 255 0 0 = 0xF800 \<and>
   unat (rgb888_to_rgb565_u8 255 0 0) = 0 \<and>
   row_pixels \<lparr>size_width = 1, size_height = 1, img_array = \<lambda>y x. (255, 0, 0)\<rparr> 0
     = [''0x0000'']"
  by (simp add: rgb888_to_rgb565_def row_pixels_def rgb888_to_rgb565_u8_def format_04X_def
      hex_upper.simps replicate_numeral_unfold)

section \<open>Identifier derivation\<close>

lemma replace_both:
  "replace (CHR '' '') (CHR ''_'') (replace (CHR ''-'') (CHR ''_'') st) =
   map (\<lambda>c. if c = CHR ''-'' \<or> c = CHR '' '' then CHR ''_'' else c) st"
  by (simp add: replace_def)

lemma replace_fixed:
  "CHR ''-'' \<notin> set s \<Longrightarrow> CHR '' '' \<notin> set s \<Longrightarrow>
   replace (CHR '' '') (CHR ''_'') (replace (CHR ''-'') (CHR ''_'') s) = s"
  by (induction s) (auto simp add: replace_def)

lemma replaced_clean:
  "CHR ''-'' \<notin> set (replace (CHR '' '') (CHR ''_'') (replace (CHR ''-'') (CHR ''_'') st)) \<and>
   CHR '' '' \<notin> set (replace (CHR '' '') (CHR ''_'') (replace (CHR ''-'') (CHR ''_'') st))"
  by (auto simp add: replace_def)

lemma derive_var_name_Inr:
  "st \<noteq> [] \<Longrightarrow> derive_var_name st =
     Inr (let s = replace (CHR '' '') (CHR ''_'') (replace (CHR ''-'') (CHR ''_'') st)
          in if \<not> isalpha (hd s) \<and> hd s \<noteq> CHR ''_'' then ''img_'' @ s else s)"
  by (cases st) (simp_all add: derive_var_name_def replace_def Let_def)

lemma derive_var_name_empty: "derive_var_name [] = Inl IndexError"
  by (simp add: derive_var_name_def replace_def)

lemma derive_var_name_fixed:
  assumes "v \<noteq> []" "CHR ''-'' \<notin> set v" "CHR '' '' \<notin> set v"
    and "isalpha (hd v) \<or> hd v = CHR ''_''"
  shows "derive_var_name v = Inr v"
  using assms by (auto simp add: derive_var_name_Inr replace_fixed Let_def)

lemma derive_var_name_examples:
  "derive_var_name ''my-icon'' = Inr ''my_icon''"
  "derive_var_name ''1icon'' = Inr ''img_1icon''"
  "derive_var_name ''icon'' = Inr ''icon''"
  by (simp_all add: derive_var_name_def replace_def isalpha_def)

lemma upper_img_prefix: "upper (''img_'' @ s) = ''IMG_'' @ upper s"
  by (simp add: upper_def upper_char_def char_of_def bit_0)

text \<open>
  C3.  Identifier derivation is a function of the stem alone.  For every stem of a file
  name (a stem is never empty) it returns a name, which is the stem with each hyphen and
  each space replaced by an underscore and every other character unchanged, prefixed
  with the marker when its first character is neither a letter nor an underscore;
  deriving again from the result returns the result; the result starts with a letter or
  an underscore.  "my-icon" gives "my_icon", "1icon" gives a name with a valid first
  character, "icon" is unchanged.
\<close>

theorem derive_var_name_idempotent:
  assumes "st \<noteq> []"
  shows "\<exists>v. derive_var_name st = Inr v \<and> derive_var_name v = Inr v \<and>
      v = (let s = map (\<lambda>c. if c = CHR ''-'' \<or> c = CHR '' '' then CHR ''_'' else c) st
           in if isalpha (hd s) \<or> hd s = CHR ''_'' then s else ''img_'' @ s) \<and>
      (isalpha (hd v) \<or> hd v = CHR ''_'') \<and>
      derive_var_name ''my-icon'' = Inr ''my_icon'' \<and>
      derive_var_name ''1icon'' = Inr ''img_1icon'' \<and>
      derive_var_name ''icon'' = Inr ''icon''"
proof -
  let ?s = "replace (CHR '' '') (CHR ''_'') (replace (CHR ''-'') (CHR ''_'') st)"
  have ne: "?s \<noteq> []" using assms by (simp add: replace_def)
  have cl: "CHR ''-'' \<notin> set ?s" "CHR '' '' \<notin> set ?s" using replaced_clean by blast+
  show ?thesis
  proof (cases "isalpha (hd ?s) \<or> hd ?s = CHR ''_''")
    case True
    then have v: "derive_var_name st = Inr ?s"
      using assms by (auto simp add: derive_var_name_Inr Let_def)
    have "derive_var_name ?s = Inr ?s"
      by (rule derive_var_name_fixed) (use cl ne True in auto)
    with v True show ?thesis
      by (simp add: replace_both Let_def derive_var_name_examples)
  next
    case False
    then have v: "derive_var_name st = Inr (''img_'' @ ?s)"
      using assms by (simp add: derive_var_name_Inr Let_def)
    have "derive_var_name (''img_'' @ ?s) = Inr (''img_'' @ ?s)"
      by (rule derive_var_name_fixed) (use cl in \<open>auto simp add: isalpha_def\<close>)
    with v False show ?thesis
      by (simp add: replace_both Let_def derive_var_name_examples isalpha_def)
  qed
qed

theorem derive_var_name_idempotent_witness:
  "\<exists>v. derive_var_name ''a b-c'' = Inr v \<and> derive_var_name v = Inr v \<and> v = ''a_b_c''"
  using derive_var_name_idempotent [of "''a b-c''"] by (simp add: isalpha_def)

text \<open>
  C10.  The marker is the literal "img_": for every non-empty stem whose first character,
  after hyphens and spaces are replaced by underscores, is neither a letter nor an
  underscore, the derived name is "img_" followed by the replaced stem, and its upper-case
  form (the prefix of the dimension constants) starts with "IMG_".  The stem "1icon"
  gives "img_1icon".
\<close>

theorem derive_var_name_img_prefix:
  assumes "st \<noteq> []"
    and "\<not> isalpha (hd (replace (CHR '' '') (CHR ''_'') (replace (CHR ''-'') (CHR ''_'') st)))"
    and "hd (replace (CHR '' '') (CHR ''_'') (replace (CHR ''-'') (CHR ''_'') st)) \<noteq> CHR ''_''"
  shows "derive_var_name st =
      Inr (''img_'' @ replace (CHR '' '') (CHR ''_'') (replace (CHR ''-'') (CHR ''_'') st)) \<and>
    upper (''img_'' @ replace (CHR '' '') (CHR ''_'') (replace (CHR ''-'') (CHR ''_'') st)) =
      ''IMG_'' @ upper (replace (CHR '' '') (CHR ''_'') (replace (CHR ''-'') (CHR ''_'') st))"
proof (intro conjI)
  show "derive_var_name st =
      Inr (''img_'' @ replace (CHR '' '') (CHR ''_'') (replace (CHR ''-'') (CHR ''_'') st))"
    using assms by (simp add: derive_var_name_Inr Let_def)
  show "upper (''img_'' @ replace (CHR '' '') (CHR ''_'') (replace (CHR ''-'') (CHR ''_'') st)) =
      ''IMG_'' @ upper (replace (CHR '' '') (CHR ''_'') (replace (CHR ''-'') (CHR ''_'') st))"
    by (rule upper_img_prefix)
qed

theorem derive_var_name_img_prefix_witness:
  "derive_var_name ''1icon'' = Inr ''img_1icon'' \<and> upper ''img_1icon'' = ''IMG_1ICON''"
  using derive_var_name_img_prefix [of "''1icon''"]
  by (simp add: replace_def isalpha_def upper_def upper_char_def char_of_def bit_0)

section \<open>Paths: suffix, stem and the output file\<close>

lemma rfind_absent: "c \<notin> set s \<Longrightarrow> rfind c s = -1"
  by (induction s) (auto simp add: Let_def)

lemma rfind_split: "c \<notin> set b \<Longrightarrow> rfind c (a @ c # b) = int (length a)"
  by (induction a) (auto simp add: Let_def rfind_absent)

lemma rfind_decomp:
  "0 \<le> rfind c s \<Longrightarrow> \<exists>a b. s = a @ c # b \<and> c \<notin> set b \<and> rfind c s = int (length a)"
proof (induction s)
  case Nil
  then show ?case by simp
next
  case (Cons x xs)
  show ?case
  proof (cases "0 \<le> rfind c xs")
    case True
    with Cons.IH obtain a b where ab: "xs = a @ c # b" "c \<notin> set b" "rfind c xs = int (length a)"
      by blast
    then have "x # xs = (x # a) @ c # b \<and> c \<notin> set b \<and> rfind c (x # xs) = int (length (x # a))"
      using True by (simp add: Let_def)
    then show ?thesis by blast
  next
    case False
    with Cons.prems have xc: "x = c" by (auto simp add: Let_def split: if_splits)
    from False have "c \<notin> set xs"
      using rfind_split [of c] by (metis in_set_conv_decomp_last of_nat_0_le_iff)
    with xc False have "x # xs = [] @ c # xs \<and> c \<notin> set xs \<and> rfind c (x # xs) = int (length ([]::string))"
      by (simp add: Let_def)
    then show ?thesis by blast
  qed
qed

lemma suffix_stem_split:
  assumes "base \<noteq> []" "ext \<noteq> []" "CHR ''.'' \<notin> set ext"
  shows "suffix (base @ CHR ''.'' # ext) = CHR ''.'' # ext \<and> stem (base @ CHR ''.'' # ext) = base"
  using assms by (auto simp add: suffix_def stem_def rfind_split Let_def)

lemma suffix_nonempty_decomp:
  assumes "suffix name \<noteq> []"
  shows "\<exists>base ext. name = base @ CHR ''.'' # ext \<and> base \<noteq> [] \<and> ext \<noteq> [] \<and>
           CHR ''.'' \<notin> set ext"
proof -
  let ?i = "rfind (CHR ''.'') name"
  from assms have i: "0 < ?i" "?i < int (length name) - 1"
    by (auto simp add: suffix_def Let_def split: if_splits)
  then obtain a b where ab: "name = a @ CHR ''.'' # b" "CHR ''.'' \<notin> set b" "?i = int (length a)"
    using rfind_decomp [of "CHR ''.''" name] by auto
  with i have "a \<noteq> []" "b \<noteq> []" by auto
  with ab show ?thesis by blast
qed

lemma stem_suffix: "stem name @ suffix name = name"
  by (simp add: stem_def suffix_def Let_def)

lemma stem_nonempty: "name \<noteq> [] \<Longrightarrow> stem name \<noteq> []"
  by (auto simp add: stem_def Let_def)

lemma stem_no_suffix: "suffix name = [] \<Longrightarrow> stem name = name"
  using stem_suffix [of name] by simp

lemma with_suffix_stem:
  assumes "name_of p \<noteq> []"
  shows "with_suffix sfx p = Inr (butlast p @ [stem (name_of p) @ sfx])"
proof (cases "suffix (name_of p) = []")
  case True
  with assms show ?thesis by (simp add: with_suffix_def Let_def stem_no_suffix)
next
  case False
  have "take (length (name_of p) - length (suffix (name_of p))) (name_of p) = stem (name_of p)"
    using stem_suffix [of "name_of p"]
    by (metis add_diff_cancel_right' append_eq_conv_conj length_append)
  with False assms show ?thesis by (simp add: with_suffix_def Let_def)
qed

lemma output_file_stem:
  assumes "name_of rel \<noteq> []"
  shows "output_file out rel = Inr (out @ butlast rel @ [stem (name_of rel) @ ''.h''])"
  using assms by (simp add: output_file_def with_suffix_stem)

lemma lower_dot: "lower (CHR ''.'' # ext) = CHR ''.'' # lower ext"
  by (simp add: lower_def lower_char_def)

lemma supported_iff:
  "supported p \<longleftrightarrow>
     (\<exists>base ext. name_of p = base @ ''.'' @ ext \<and> base \<noteq> [] \<and> CHR ''.'' \<notin> set ext \<and>
        lower ext \<in> {''png'', ''jpg'', ''jpeg'', ''bmp'', ''gif'', ''tiff''})"
proof
  assume "supported p"
  then have m: "lower (suffix (name_of p)) \<in> SUPPORTED_FORMATS" by (simp add: supported_def)
  then have "suffix (name_of p) \<noteq> []" by (auto simp add: SUPPORTED_FORMATS_def lower_def)
  then obtain base ext where d: "name_of p = base @ CHR ''.'' # ext" "base \<noteq> []" "ext \<noteq> []"
      "CHR ''.'' \<notin> set ext"
    using suffix_nonempty_decomp by blast
  then have "suffix (name_of p) = CHR ''.'' # ext" using suffix_stem_split by simp
  with m have "lower ext \<in> {''png'', ''jpg'', ''jpeg'', ''bmp'', ''gif'', ''tiff''}"
    by (simp add: lower_dot SUPPORTED_FORMATS_def)
  with d show "\<exists>base ext. name_of p = base @ ''.'' @ ext \<and> base \<noteq> [] \<and>
      CHR ''.'' \<notin> set ext \<and> lower ext \<in> {''png'', ''jpg'', ''jpeg'', ''bmp'', ''gif'', ''tiff''}"
    by auto
next
  assume "\<exists>base ext. name_of p = base @ ''.'' @ ext \<and> base \<noteq> [] \<and> CHR ''.'' \<notin> set ext \<and>
      lower ext \<in> {''png'', ''jpg'', ''jpeg'', ''bmp'', ''gif'', ''tiff''}"
  then obtain base ext where d: "name_of p = base @ CHR ''.'' # ext" "base \<noteq> []"
      "CHR ''.'' \<notin> set ext"
      and m: "lower ext \<in> {''png'', ''jpg'', ''jpeg'', ''bmp'', ''gif'', ''tiff''}"
    by auto
  from m have "ext \<noteq> []" by (auto simp add: lower_def)
  with d have "suffix (name_of p) = CHR ''.'' # ext" using suffix_stem_split by simp
  with m show "supported p" by (auto simp add: supported_def lower_dot SUPPORTED_FORMATS_def)
qed

lemma supported_name: "supported p \<Longrightarrow> name_of p \<noteq> [] \<and> suffix (name_of p) \<noteq> []"
  by (auto simp add: supported_def SUPPORTED_FORMATS_def lower_def suffix_def Let_def
      split: if_splits)

lemma name_of_append: "rel \<noteq> [] \<Longrightarrow> name_of (src @ rel) = name_of rel"
  by (simp add: name_of_def)

section \<open>One conversion, and the loop over the walked files\<close>

lemma name_of_file: "name_of (p @ [file]) = file"
  by (simp add: name_of_def)

lemma image_to_c_array_None:
  assumes "supported (src @ root @ [file])"
  shows "image_to_c_array dec (src @ root @ [file]) = None \<longleftrightarrow> dec (src @ root @ [file]) = None"
proof -
  have "file \<noteq> []" using supported_name [OF assms] by (simp add: name_of_def)
  then have "stem file \<noteq> []" by (rule stem_nonempty)
  then have "\<exists>v. derive_var_name (stem file) = Inr v" by (simp add: derive_var_name_Inr)
  then obtain v where "derive_var_name (stem file) = Inr v" ..
  then show ?thesis
    using name_of_file [of "src @ root" "file"]
    by (simp add: image_to_c_array_def split: option.splits)
qed

lemma output_file_walked:
  assumes "supported (src @ root @ [file])"
  shows "output_file out (root @ [file]) = Inr (out @ root @ [stem file @ ''.h''])"
proof -
  have "file \<noteq> []" using supported_name [OF assms] by (simp add: name_of_def)
  then show ?thesis using output_file_stem [of "root @ [file]" out] by (simp add: name_of_def)
qed

lemma convert_image_file_fst:
  "fst (convert_image_file e out (src @ root @ [file]) (root @ [file]) w) =
     succeeds e src out (root, file)"
  by (simp add: convert_image_file_def succeeds_def Let_def emit_def
      split: option.splits sum.splits write_outcome.splits)

lemma convert_image_file_files:
  "files (snd (convert_image_file e out (src @ root @ [file]) (root @ [file]) w)) =
     files w ++ leaves e src out (root, file)"
  by (simp add: convert_image_file_def leaves_def Let_def emit_def
      split: option.splits sum.splits write_outcome.splits)

lemma succeeds_iff:
  assumes "supported (src @ root @ [file])"
  shows "succeeds e src out (root, file) \<longleftrightarrow> \<not> conversion_fails e src out (root, file)"
proof (cases "decode e (src @ root @ [file])")
  case None
  then have "image_to_c_array (decode e) (src @ root @ [file]) = None"
    using image_to_c_array_None [OF assms] by simp
  with None show ?thesis
    by (simp add: succeeds_def conversion_fails_def convert_image_file_def Let_def)
next
  case (Some img)
  then have "image_to_c_array (decode e) (src @ root @ [file]) \<noteq> None"
    using image_to_c_array_None [OF assms] by simp
  then obtain t where "image_to_c_array (decode e) (src @ root @ [file]) = Some t" by auto
  with Some output_file_walked [OF assms, of out] show ?thesis
    by (simp add: succeeds_def conversion_fails_def convert_image_file_def Let_def
        butlast_append split: write_outcome.splits)
qed



lemma scan_files_eligible:
  "scan_files e src out fs st = scan_files e src out (eligible src fs) st"
proof (induction fs arbitrary: st)
  case Nil
  show ?case by (simp add: eligible_def)
next
  case (Cons f fs)
  obtain root fname where f: "f = (root, fname)" by (cases f)
  obtain c er w where st: "st = (c, er, w)" by (cases st)
  show ?case
    using Cons.IH
    by (simp add: f st eligible_def Let_def split: prod.splits bool.splits)
qed

lemma scan_files_result:
  "scan_files e src out fs (c, er, w) = (c', er', w') \<Longrightarrow>
     c' = c + length (filter (succeeds e src out) (eligible src fs)) \<and>
     er' = er + length (filter (\<lambda>f. \<not> succeeds e src out f) (eligible src fs)) \<and>
     files w' = files w ++ written e src out fs"
proof (induction fs arbitrary: c er w)
  case Nil
  then show ?case by (simp add: eligible_def written_def)
next
  case (Cons f fs)
  obtain root fname where f: "f = (root, fname)" by (cases f)
  show ?case
  proof (cases "supported (src @ root @ [fname])")
    case False
    with Cons show ?thesis by (simp add: f eligible_def written_def)
  next
    case True
    obtain ok w1 where cv:
      "convert_image_file e out (src @ root @ [fname]) (root @ [fname]) w = (ok, w1)"
      by (cases "convert_image_file e out (src @ root @ [fname]) (root @ [fname]) w")
    have ok: "ok = succeeds e src out (root, fname)"
      using convert_image_file_fst [of e out src root fname w] cv by simp
    have w1: "files w1 = files w ++ leaves e src out (root, fname)"
      using convert_image_file_files [of e out src root fname w] cv by simp
    show ?thesis
    proof (cases ok)
      case True
      with Cons.prems \<open>supported (src @ root @ [fname])\<close> cv
      have "scan_files e src out fs (c + 1, er, w1) = (c', er', w')" by (simp add: f)
      from Cons.IH [OF this] True ok w1 \<open>supported (src @ root @ [fname])\<close>
      show ?thesis by (simp add: f eligible_def written_def)
    next
      case False
      with Cons.prems \<open>supported (src @ root @ [fname])\<close> cv
      have "scan_files e src out fs (c, er + 1, w1) = (c', er', w')" by (simp add: f)
      from Cons.IH [OF this] False ok w1 \<open>supported (src @ root @ [fname])\<close>
      show ?thesis by (simp add: f eligible_def written_def)
    qed
  qed
qed

lemma written_idem: "written e src out fs ++ written e src out fs = written e src out fs"
  by (rule ext) (simp add: map_add_def split: option.splits)


section \<open>The small tree, evaluated\<close>

lemma lower_examples:
  "lower ''.png'' = ''.png''" "lower ''.JPG'' = ''.jpg''" "lower ''.gif'' = ''.gif''"
  "lower ''.txt'' = ''.txt''" "lower ''.jpg'' = ''.jpg''" "lower ''.h'' = ''.h''"
  by (simp_all add: lower_def lower_char_def char_of_def bit_0)

lemma suffix_examples:
  "suffix ''logo.png'' = ''.png''" "suffix ''notes.txt'' = ''.txt''"
  "suffix ''my-icon.JPG'' = ''.JPG''" "suffix ''broken.gif'' = ''.gif''"
  "suffix ''a.png'' = ''.png''" "suffix ''a.jpg'' = ''.jpg''" "suffix ''logo.h'' = ''.h''"
  by (simp_all add: suffix_def Let_def)


lemma supported_examples:
  "supported (p @ [''logo.png''])" "\<not> supported (p @ [''notes.txt''])"
  "supported (p @ [''my-icon.JPG''])" "supported (p @ [''broken.gif''])"
  "supported (p @ [''a.png''])" "supported (p @ [''a.jpg''])" "\<not> supported (p @ [''logo.h''])"
  by (simp_all add: supported_def name_of_file suffix_examples lower_examples SUPPORTED_FORMATS_def)

lemma eligible_example:
  "eligible [''images''] (walk example_env) =
     [([], ''logo.png''), ([''icons''], ''my-icon.JPG''), ([''icons''], ''broken.gif'')]"
  using supported_examples [of "[''images'']"] supported_examples [of "[''images'', ''icons'']"]
  by (simp add: eligible_def example_env_def)

lemma conversion_fails_example:
  "\<not> conversion_fails example_env [''images''] out ([], ''logo.png'')"
  "\<not> conversion_fails example_env [''images''] out ([''icons''], ''my-icon.JPG'')"
  "conversion_fails example_env [''images''] out ([''icons''], ''broken.gif'')"
  by (simp_all add: conversion_fails_def example_env_def)

section \<open>The result of a traversal\<close>

lemma scan_and_convert_result:
  "fst (scan_and_convert e src out w) =
     (length (filter (succeeds e src out) (eligible src (walk e))),
      length (filter (\<lambda>f. \<not> succeeds e src out f) (eligible src (walk e)))) \<and>
   files (snd (scan_and_convert e src out w)) = files w ++ written e src out (walk e)"
proof -
  obtain c er w' where r:
    "scan_files e src out (walk e) (0, 0, emit (Scanning src out) w) = (c, er, w')"
    by (cases "scan_files e src out (walk e) (0, 0, emit (Scanning src out) w)")
  from scan_files_result [OF r] r show ?thesis
    by (simp add: scan_and_convert_def emit_def)
qed

lemma eligible_supported:
  "f \<in> set (eligible src fs) \<Longrightarrow> supported (src @ fst f @ [snd f])"
  by (auto simp add: eligible_def)

lemma succeeds_eligible:
  "filter (succeeds e src out) (eligible src fs) =
     filter (\<lambda>f. \<not> conversion_fails e src out f) (eligible src fs)"
  by (rule filter_cong [OF refl])
     (metis eligible_supported succeeds_iff prod.collapse)

lemma fails_eligible:
  "filter (\<lambda>f. \<not> succeeds e src out f) (eligible src fs) =
     filter (conversion_fails e src out) (eligible src fs)"
  by (rule filter_cong [OF refl])
     (metis eligible_supported succeeds_iff prod.collapse)

lemma scan_and_convert_tally:
  "fst (scan_and_convert e src out w) =
     (length (eligible src (walk e)) -
        length (filter (conversion_fails e src out) (eligible src (walk e))),
      length (filter (conversion_fails e src out) (eligible src (walk e))))"
proof -
  have "length (filter (\<lambda>f. \<not> conversion_fails e src out f) (eligible src (walk e))) =
        length (eligible src (walk e)) -
          length (filter (conversion_fails e src out) (eligible src (walk e)))"
    using sum_length_filter_compl [of "conversion_fails e src out" "eligible src (walk e)"]
    by simp
  then show ?thesis
    using scan_and_convert_result [of e src out w]
    by (simp add: succeeds_eligible fails_eligible)
qed

lemma main_verbose: "main e (a\<lparr>verbose := v\<rparr>) w = main e a w"
  by (simp add: main_def run_def split: sum.splits)

lemma run_verbose: "run e (a\<lparr>verbose := v\<rparr>) w = run e a w"
  by (simp add: run_def split: sum.splits)

section \<open>Eligibility, tally and exit status\<close>

text \<open>
  Claim C6.  A walked file is eligible for conversion exactly when its name is a non-empty
  base, a dot and an extension without a dot that, lower-cased, is one of png, jpg, jpeg,
  bmp, gif and tiff.  A file with another extension or with none is passed over: the
  counters, the files and the diagnostics are as if it were not there, and the loop over a
  walk is the loop over its eligible files.
\<close>

theorem eligible_iff_extension:
  "(supported (src @ root @ [file]) \<longleftrightarrow>
      (\<exists>base ext. file = base @ ''.'' @ ext \<and> base \<noteq> [] \<and> CHR ''.'' \<notin> set ext \<and>
         lower ext \<in> {''png'', ''jpg'', ''jpeg'', ''bmp'', ''gif'', ''tiff''})) \<and>
   (\<not> supported (src @ root @ [file]) \<longrightarrow>
      scan_files e src out ((root, file) # rest) st = scan_files e src out rest st) \<and>
   scan_files e src out fs st = scan_files e src out (eligible src fs) st"
proof (intro conjI impI)
  show "supported (src @ root @ [file]) \<longleftrightarrow>
      (\<exists>base ext. file = base @ ''.'' @ ext \<and> base \<noteq> [] \<and> CHR ''.'' \<notin> set ext \<and>
         lower ext \<in> {''png'', ''jpg'', ''jpeg'', ''bmp'', ''gif'', ''tiff''})"
    using supported_iff [of "src @ root @ [file]"] name_of_file [of "src @ root" "file"]
    by simp
next
  assume "\<not> supported (src @ root @ [file])"
  then show "scan_files e src out ((root, file) # rest) st = scan_files e src out rest st"
    by (cases st) simp
next
  show "scan_files e src out fs st = scan_files e src out (eligible src fs) st"
    by (rule scan_files_eligible)
qed

theorem eligible_iff_extension_witness:
  "supported [''images'', ''icons'', ''my-icon.JPG''] \<and>
   \<not> supported [''images'', ''notes.txt''] \<and>
   scan_files example_env [''images''] [''out''] [([], ''notes.txt'')] (0, 0, empty_world) =
     scan_files example_env [''images''] [''out''] [] (0, 0, empty_world)"
  using eligible_iff_extension [of "[''images'']" "[]" "''notes.txt''" example_env "[''out'']" "[]"
      "(0, 0, empty_world)" "[]", THEN conjunct2, THEN conjunct1]
    supported_examples(2) [of "[''images'']"] supported_examples(3) [of "[''images'', ''icons'']"]
  by simp

text \<open>
  Claim C5.  With \<open>N\<close> the number of eligible files of the walk and \<open>F\<close> the number of those
  whose decoding or writing fails, the tally returned is \<open>(N - F, F)\<close>, so the two counts add
  up to \<open>N\<close>, and it is \<open>(0, 0)\<close> when no file is eligible.  A failing eligible file adds
  exactly one to the error count, leaves the converted count, and the loop goes on with the
  rest of the walk.
\<close>

theorem scan_and_convert_counts:
  "fst (scan_and_convert e src out w) =
     (length (eligible src (walk e)) -
        length (filter (conversion_fails e src out) (eligible src (walk e))),
      length (filter (conversion_fails e src out) (eligible src (walk e)))) \<and>
   fst (fst (scan_and_convert e src out w)) + snd (fst (scan_and_convert e src out w)) =
     length (eligible src (walk e)) \<and>
   (eligible src (walk e) = [] \<longrightarrow> fst (scan_and_convert e src out w) = (0, 0)) \<and>
   (supported (src @ root @ [file]) \<and> conversion_fails e src out (root, file) \<longrightarrow>
      (\<exists>w'. scan_files e src out ((root, file) # rest) (c, er, w0) =
             scan_files e src out rest (c, er + 1, w')))"
proof (intro conjI impI)
  show t: "fst (scan_and_convert e src out w) =
     (length (eligible src (walk e)) -
        length (filter (conversion_fails e src out) (eligible src (walk e))),
      length (filter (conversion_fails e src out) (eligible src (walk e))))"
    by (rule scan_and_convert_tally)
  have "length (filter (conversion_fails e src out) (eligible src (walk e))) \<le>
        length (eligible src (walk e))"
    by (rule length_filter_le)
  with t show "fst (fst (scan_and_convert e src out w)) + snd (fst (scan_and_convert e src out w)) =
     length (eligible src (walk e))"
    by simp
  show "fst (scan_and_convert e src out w) = (0, 0)" if "eligible src (walk e) = []"
    using t that by simp
next
  assume a: "supported (src @ root @ [file]) \<and> conversion_fails e src out (root, file)"
  obtain ok w1 where cv:
    "convert_image_file e out (src @ root @ [file]) (root @ [file]) w0 = (ok, w1)"
    by (cases "convert_image_file e out (src @ root @ [file]) (root @ [file]) w0")
  have "ok = succeeds e src out (root, file)"
    using convert_image_file_fst [of e out src root "file" w0] cv by simp
  with a have "\<not> ok" using succeeds_iff [of src root "file" e out] by simp
  with a cv have "scan_files e src out ((root, file) # rest) (c, er, w0) =
             scan_files e src out rest (c, er + 1, w1)"
    by simp
  then show "\<exists>w'. scan_files e src out ((root, file) # rest) (c, er, w0) =
             scan_files e src out rest (c, er + 1, w')" ..
qed

theorem scan_and_convert_counts_witness:
  "fst (scan_and_convert example_env [''images''] [''out''] empty_world) = (2, 1) \<and>
   fst (scan_and_convert (example_env\<lparr>walk := [([], ''notes.txt'')]\<rparr>) [''images''] [''out'']
          empty_world) = (0, 0) \<and>
   (\<exists>w'. scan_files example_env [''images''] [''out''] [([''icons''], ''broken.gif'')]
            (0, 0, empty_world) =
          scan_files example_env [''images''] [''out''] [] (0, 1, w'))"
proof -
  have none: "eligible [''images''] (walk (example_env\<lparr>walk := [([], ''notes.txt'')]\<rparr>)) = []"
    using supported_examples(2) [of "[''images'']"] by (simp add: eligible_def)
  have bad: "supported ([''images''] @ [''icons''] @ [''broken.gif''])"
    using supported_examples(4) [of "[''images'', ''icons'']"] by simp
  show ?thesis
    using scan_and_convert_counts [of example_env "[''images'']" "[''out'']" empty_world,
        THEN conjunct1]
      scan_and_convert_counts [of "example_env\<lparr>walk := [([], ''notes.txt'')]\<rparr>" "[''images'']"
        "[''out'']" empty_world, THEN conjunct2, THEN conjunct2, THEN conjunct1]
      scan_and_convert_counts [of example_env "[''images'']" "[''out'']" empty_world
        "[''icons'']" "''broken.gif''" "[]" 0 0 empty_world,
        THEN conjunct2, THEN conjunct2, THEN conjunct2]
      none bad eligible_example conversion_fails_example [of "[''out'']"]
    by (simp del: scan_files.simps)
qed

text \<open>
  Claim C7.  The exit status of \<open>main\<close> is 0 when the source directory exists, the output
  directory can be created and no eligible file fails to decode or to write; it is 1 in
  every other case.  When the source directory does not exist, \<open>main\<close> ends with status 1
  before any traversal: it only prints the error.
\<close>

theorem main_exit_code:
  "fst (main e a w) =
     (if exists e (source_dir a) \<and> mkdir_ok e (output_dir a) \<and>
         (\<forall>f \<in> set (eligible (source_dir a) (walk e)).
             \<not> conversion_fails e (source_dir a) (output_dir a) f)
      then 0 else 1) \<and>
   (\<not> exists e (source_dir a) \<longrightarrow> main e a w = (1, emit ErrorNotFound w))"
proof (intro conjI impI)
  let ?fs = "eligible (source_dir a) (walk e)"
  let ?F = "filter (conversion_fails e (source_dir a) (output_dir a)) ?fs"
  have F: "(length ?F > 0) = (\<exists>f \<in> set ?fs. conversion_fails e (source_dir a) (output_dir a) f)"
    by (simp add: filter_empty_conv)
  obtain t w' where s: "scan_and_convert e (source_dir a) (output_dir a) w = (t, w')"
    by (cases "scan_and_convert e (source_dir a) (output_dir a) w")
  have t: "snd t = length ?F"
    using scan_and_convert_tally [of e "source_dir a" "output_dir a" w] s by simp
  show "fst (main e a w) =
     (if exists e (source_dir a) \<and> mkdir_ok e (output_dir a) \<and>
         (\<forall>f \<in> set ?fs. \<not> conversion_fails e (source_dir a) (output_dir a) f)
      then 0 else 1)"
    using s t F
    by (cases t) (auto simp add: main_def run_def init_def exit_status_def)
next
  assume "\<not> exists e (source_dir a)"
  then show "main e a w = (1, emit ErrorNotFound w)"
    by (simp add: main_def run_def init_def exit_status_def)
qed

theorem main_exit_code_witness:
  "fst (main example_env \<lparr>source_dir = [''images''], output_dir = [''out''], verbose = False\<rparr>
          empty_world) = 1 \<and>
   fst (main (example_env\<lparr>walk := [([], ''logo.png''), ([], ''notes.txt'')]\<rparr>)
          \<lparr>source_dir = [''images''], output_dir = [''out''], verbose = False\<rparr> empty_world) = 0 \<and>
   main example_env \<lparr>source_dir = [''nowhere''], output_dir = [''out''], verbose = False\<rparr>
          empty_world = (1, emit ErrorNotFound empty_world)"
  using main_exit_code [of example_env
      "\<lparr>source_dir = [''images''], output_dir = [''out''], verbose = False\<rparr>" empty_world]
    main_exit_code [of "example_env\<lparr>walk := [([], ''logo.png''), ([], ''notes.txt'')]\<rparr>"
      "\<lparr>source_dir = [''images''], output_dir = [''out''], verbose = False\<rparr>" empty_world]
    main_exit_code [of example_env
      "\<lparr>source_dir = [''nowhere''], output_dir = [''out''], verbose = False\<rparr>" empty_world]
    eligible_example conversion_fails_example [of "[''out'']"]
    supported_examples [of "[''images'']"]
  by (simp add: eligible_def example_env_def conversion_fails_def)

lemma verbose_same_outcome:
  "files (snd (main e (a\<lparr>verbose := v\<rparr>) w)) = files (snd (main e a w)) \<and>
   fst (run e (a\<lparr>verbose := v\<rparr>) w) = fst (run e a w) \<and>
   fst (main e (a\<lparr>verbose := v\<rparr>) w) = fst (main e a w)"
  by (simp add: main_verbose run_verbose)

text \<open>
  Claim C9.  The flag \<^verbatim>\<open>--verbose\<close> is declared with the help text
  \<^verbatim>\<open>Enable verbose output\<close>, and \<^verbatim>\<open>args.verbose\<close> is never read.  On the small tree the
  run with the flag prints line for line what the run without it prints, so the flag
  enables no diagnostics; the files, the tally and the exit status are the same too.
\<close>

theorem verbose_prints_nothing_more:
  "stdout (snd (main example_env
      \<lparr>source_dir = [''images''], output_dir = [''out''], verbose = True\<rparr> empty_world)) =
   stdout (snd (main example_env
      \<lparr>source_dir = [''images''], output_dir = [''out''], verbose = False\<rparr> empty_world)) \<and>
   main example_env
      \<lparr>source_dir = [''images''], output_dir = [''out''], verbose = True\<rparr> empty_world =
   main example_env
      \<lparr>source_dir = [''images''], output_dir = [''out''], verbose = False\<rparr> empty_world"
  using main_verbose [of example_env
      True "\<lparr>source_dir = [''images''], output_dir = [''out''], verbose = False\<rparr>" empty_world]
  by simp

section \<open>Output paths and repeated runs\<close>


lemma convert_image_file_walk:
  "convert_image_file (e\<lparr>walk := fs\<rparr>) out p rel w = convert_image_file e out p rel w"
  by (simp add: convert_image_file_def Let_def
      split: option.splits sum.splits write_outcome.splits)

lemma succeeds_walk: "succeeds (e\<lparr>walk := fs\<rparr>) src out = succeeds e src out"
  by (simp add: fun_eq_iff succeeds_def convert_image_file_walk)

lemma written_walk: "written (e\<lparr>walk := fs\<rparr>) src out gs = written e src out gs"
  by (simp add: written_def leaves_def convert_image_file_walk)

lemma written_eligible:
  "eligible src fs' = eligible src fs \<Longrightarrow> written e src out fs' = written e src out fs"
  by (simp add: written_def)









text \<open>
  Claim C8.  A second run over the same source tree, started in the world the first run
  left, returns the same tally and leaves the files as the first run left them; this holds
  also when the second walk lists further files that are not eligible, as the artifacts of
  the first run are.  The artifact text of a file depends on the decoder only through the
  decoded image of that file.
\<close>

theorem rerun_same_artifacts:
  "(eligible src fs' = eligible src (walk e) \<longrightarrow>
      fst (scan_and_convert (e\<lparr>walk := fs'\<rparr>) src out (snd (scan_and_convert e src out w))) =
        fst (scan_and_convert e src out w) \<and>
      files (snd (scan_and_convert (e\<lparr>walk := fs'\<rparr>) src out
                    (snd (scan_and_convert e src out w)))) =
        files (snd (scan_and_convert e src out w))) \<and>
   (dec1 p = dec2 p \<longrightarrow> image_to_c_array dec1 p = image_to_c_array dec2 p)"
proof (intro conjI impI)
  assume el: "eligible src fs' = eligible src (walk e)"
  let ?w1 = "snd (scan_and_convert e src out w)"
  show "fst (scan_and_convert (e\<lparr>walk := fs'\<rparr>) src out ?w1) = fst (scan_and_convert e src out w)"
    using scan_and_convert_result [of "e\<lparr>walk := fs'\<rparr>" src out ?w1]
      scan_and_convert_result [of e src out w] el
    by (simp add: succeeds_walk)
  have "files (snd (scan_and_convert (e\<lparr>walk := fs'\<rparr>) src out ?w1)) =
      (files w ++ written e src out (walk e)) ++ written e src out (walk e)"
    using scan_and_convert_result [of "e\<lparr>walk := fs'\<rparr>" src out ?w1]
      scan_and_convert_result [of e src out w] written_eligible [OF el, of e out]
    by (simp add: written_walk)
  also have "\<dots> = files w ++ written e src out (walk e)"
    by (simp only: map_add_assoc [symmetric] written_idem)
  finally show "files (snd (scan_and_convert (e\<lparr>walk := fs'\<rparr>) src out ?w1)) = files ?w1"
    using scan_and_convert_result [of e src out w] by simp
next
  assume "dec1 p = dec2 p"
  then show "image_to_c_array dec1 p = image_to_c_array dec2 p"
    by (simp add: image_to_c_array_def)
qed

theorem rerun_same_artifacts_witness:
  "fst (scan_and_convert (example_env\<lparr>walk := walk example_env @ [([], ''logo.h'')]\<rparr>)
          [''images''] [''out'']
          (snd (scan_and_convert example_env [''images''] [''out''] empty_world))) =
     fst (scan_and_convert example_env [''images''] [''out''] empty_world) \<and>
   files (snd (scan_and_convert (example_env\<lparr>walk := walk example_env @ [([], ''logo.h'')]\<rparr>)
          [''images''] [''out'']
          (snd (scan_and_convert example_env [''images''] [''out''] empty_world)))) =
     files (snd (scan_and_convert example_env [''images''] [''out''] empty_world)) \<and>
   image_to_c_array (decode example_env) [''images'', ''logo.png''] =
     image_to_c_array (\<lambda>p. Some example_image) [''images'', ''logo.png'']"
proof -
  have "eligible [''images''] (walk example_env @ [([], ''logo.h'')]) =
        eligible [''images''] (walk example_env)"
    using supported_examples(7) [of "[''images'']"] by (simp add: eligible_def)
  moreover have "decode example_env [''images'', ''logo.png''] =
        (\<lambda>p. Some example_image) [''images'', ''logo.png'']"
    by (simp add: example_env_def)
  ultimately show ?thesis
    using rerun_same_artifacts [of "[''images'']" "walk example_env @ [([], ''logo.h'')]"
        example_env "[''out'']" empty_world "decode example_env" "[''images'', ''logo.png'']"
        "\<lambda>p. Some example_image"]
    by blast
qed

section \<open>The artifact text\<close>

lemma hex_upper_digit: "n < 16 \<Longrightarrow> hex_upper n = [spec_hex_digit n]"
  by (subst hex_upper.simps) (simp add: spec_hex_digit_def)

lemma hex_upper_step:
  "16 \<le> n \<Longrightarrow> hex_upper n = hex_upper (n div 16) @ [spec_hex_digit (n mod 16)]"
  by (subst hex_upper.simps) (simp add: spec_hex_digit_def)

lemma hex_upper_4_digits:
  assumes "v < 65536"
  shows "format_04X v =
     [spec_hex_digit (v div 4096 mod 16), spec_hex_digit (v div 256 mod 16),
      spec_hex_digit (v div 16 mod 16), spec_hex_digit (v mod 16)]"
proof -
  have z: "spec_hex_digit 0 = CHR ''0''" by (simp add: spec_hex_digit_def)
  consider "v < 16" | "16 \<le> v" "v < 256" | "256 \<le> v" "v < 4096" | "4096 \<le> v"
    by linarith
  then show ?thesis
  proof cases
    case 1
    then have "hex_upper v = [spec_hex_digit v]" by (rule hex_upper_digit)
    with 1 show ?thesis by (simp add: format_04X_def z replicate_numeral_unfold)
  next
    case 2
    have a: "hex_upper v = hex_upper (v div 16) @ [spec_hex_digit (v mod 16)]"
      using 2 by (intro hex_upper_step)
    have b: "hex_upper (v div 16) = [spec_hex_digit (v div 16)]"
      using 2 by (intro hex_upper_digit) simp
    from 2 show ?thesis by (simp add: format_04X_def a b z replicate_numeral_unfold)
  next
    case 3
    have a: "hex_upper v = hex_upper (v div 16) @ [spec_hex_digit (v mod 16)]"
      using 3 by (intro hex_upper_step) simp
    have b: "hex_upper (v div 16) = hex_upper (v div 256) @ [spec_hex_digit (v div 16 mod 16)]"
      using 3 hex_upper_step [of "v div 16"] by (simp add: div_mult2_eq [symmetric])
    have c: "hex_upper (v div 256) = [spec_hex_digit (v div 256)]"
      using 3 by (intro hex_upper_digit) simp
    from 3 show ?thesis by (simp add: format_04X_def a b c z replicate_numeral_unfold)
  next
    case 4
    have a: "hex_upper v = hex_upper (v div 16) @ [spec_hex_digit (v mod 16)]"
      using 4 by (intro hex_upper_step) simp
    have b: "hex_upper (v div 16) = hex_upper (v div 256) @ [spec_hex_digit (v div 16 mod 16)]"
      using 4 hex_upper_step [of "v div 16"] by (simp add: div_mult2_eq [symmetric])
    have c: "hex_upper (v div 256) = hex_upper (v div 4096) @ [spec_hex_digit (v div 256 mod 16)]"
      using 4 hex_upper_step [of "v div 256"] by (simp add: div_mult2_eq [symmetric])
    have d: "hex_upper (v div 4096) = [spec_hex_digit (v div 4096)]"
      using assms by (intro hex_upper_digit) simp
    from assms show ?thesis by (simp add: format_04X_def a b c d)
  qed
qed

lemma row_major_index:
  assumes "x < w" and "y < (h::nat)"
  shows "y * w + x < w * h" and "(y * w + x) div w = y" and "(y * w + x) mod w = x"
proof -
  have "y * w + x < y * w + w" using assms(1) by simp
  also have "\<dots> = Suc y * w" by simp
  also have "\<dots> \<le> h * w" using assms(2) by (intro mult_le_mono1) simp
  finally show "y * w + x < w * h" by (simp add: mult.commute)
  show "(y * w + x) div w = y" using assms(1) by simp
  show "(y * w + x) mod w = x" using assms(1) by simp
qed

lemma pixel_values_nth:
  assumes "x < size_width img" and "y < size_height img"
  shows "pixel_values img ! (y * size_width img + x) =
     (case img_array img y x of (r, g, b) \<Rightarrow> unat (rgb888_to_rgb565_u8 r g b))"
  using row_major_index [OF assms] by (simp add: pixel_values_def)

lemma pixel_values_16_bits: "v \<in> set (pixel_values img) \<Longrightarrow> v < 65536"
proof -
  have "unat (rgb888_to_rgb565_u8 r g b) < 65536" for r g b
    using rgb888_to_rgb565_u8_below_256 [of r g b] by simp
  then show "v \<in> set (pixel_values img) \<Longrightarrow> v < 65536"
    by (auto simp add: pixel_values_def split: prod.splits)
qed

lemma row_pixels_spec:
  assumes "y < size_height img"
  shows "row_pixels img y =
     map (\<lambda>x. spec_hex_literal (pixel_values img ! (y * size_width img + x)))
       [0..<size_width img]"
  unfolding row_pixels_def
proof (rule map_cong [OF refl])
  fix x assume "x \<in> set [0..<size_width img]"
  then have x: "x < size_width img" by simp
  obtain r g b where p: "img_array img y x = (r, g, b)" by (cases "img_array img y x")
  have "unat (rgb888_to_rgb565_u8 r g b) < 65536"
    using rgb888_to_rgb565_u8_below_256 [of r g b] by simp
  then show "(case img_array img y x of
          (r, g, b) \<Rightarrow> ''0x'' @ format_04X (unat (rgb888_to_rgb565_u8 r g b))) =
        spec_hex_literal (pixel_values img ! (y * size_width img + x))"
    using pixel_values_nth [OF x assms]
    by (simp add: p spec_hex_literal_def hex_upper_4_digits)
qed

lemma pixels_spec:
  "pixels img =
     spec_initializer_rows (size_width img) (size_height img) (pixel_values img)"
  unfolding pixels_def spec_initializer_rows_def
proof (rule map_cong [OF refl])
  fix y assume "y \<in> set [0..<size_height img]"
  then have y: "y < size_height img" by simp
  have "(int y < int (size_height img) - 1) = (y + 1 < size_height img)" by linarith
  then show "(if int y < int (size_height img) - 1
         then ''    '' @ join '', '' (row_pixels img y) @ '',''
         else ''    '' @ join '', '' (row_pixels img y)) =
        ''    '' @ join '', ''
          (map (\<lambda>x. spec_hex_literal (pixel_values img ! (y * size_width img + x)))
             [0..<size_width img]) @
        (if y + 1 < size_height img then '','' else '''')"
    by (simp add: row_pixels_spec [OF y])
qed

lemma c_content_spec:
  "c_content file_name ident img =
     spec_artifact file_name ident (size_width img) (size_height img) (pixel_values img)"
  by (simp add: c_content_def spec_artifact_def spec_provenance_comment_def
      spec_inclusion_guard_def spec_dimension_constants_def spec_array_declaration_def
      spec_aggregate_type_def spec_instance_def pixels_spec Let_def)

lemma image_to_c_array_spec:
  assumes "dec p = Some img" and "derive_var_name (stem (name_of p)) = Inr ident"
  shows "image_to_c_array dec p =
     Some (join [CHR 0x0A]
       (spec_artifact (name_of p) ident (size_width img) (size_height img) (pixel_values img)))"
  using assms by (simp add: image_to_c_array_def c_content_spec)

lemma spec_pixel_packer_int:
  "spec_pixel_packer r g b = nat (rgb888_to_rgb565 (uint r) (uint g) (uint b))"
  by (simp add: spec_pixel_packer_def rgb888_to_rgb565_def)

lemma red_image_values:
  "size_width red_image = 1" "size_height red_image = 1"
  "pixel_values red_image = [0]" "spec_packed_buffer red_image = [0xF800]"
  by (simp_all add: red_image_def pixel_values_def spec_packed_buffer_def
      rgb888_to_rgb565_u8_def spec_pixel_packer_def)

lemma red_rows:
  "spec_initializer_rows 1 1 [0] = [''    0x0000'']"
  "spec_initializer_rows 1 1 [0xF800] = [''    0xF800'']"
  by (simp_all add: spec_initializer_rows_def spec_hex_literal_def spec_hex_digit_def)

lemma red_ident: "derive_var_name (stem (name_of [''images'', ''red.png''])) = Inr ''red''"
  by (simp add: name_of_def stem_def Let_def derive_var_name_def replace_def isalpha_def)

text \<open>
  Claim C2.  The generated text has the layout of the specification (the comment, the
  guard, the two constants, the array with one line per row, the type and the instance),
  but the values in the initializer are those that line 82 computes, and these are not the
  packed pixel values.  For the image \<^verbatim>\<open>images/red.png\<close> of one red pixel the Packed Pixel
  Buffer is \<open>[0xF800]\<close> and the array of the specification has the line \<^verbatim>\<open>0xF800\<close>; the
  generated text is the layout around the buffer \<open>[0]\<close>, with the line \<^verbatim>\<open>0x0000\<close>.
\<close>

theorem image_to_c_array_red_pixel:
  "spec_packed_buffer red_image = [0xF800] \<and>
   spec_array_declaration ''red'' 1 (spec_initializer_rows 1 1 (spec_packed_buffer red_image)) =
     [''const uint16_t red_data[1] = {'', ''    0xF800'', ''};''] \<and>
   image_to_c_array (\<lambda>p. Some red_image) [''images'', ''red.png''] =
     Some (join [CHR 0x0A] (spec_artifact ''red.png'' ''red'' 1 1 [0])) \<and>
   spec_array_declaration ''red'' 1 (spec_initializer_rows 1 1 [0]) =
     [''const uint16_t red_data[1] = {'', ''    0x0000'', ''};''] \<and>
   c_content ''red.png'' ''red'' red_image \<noteq>
     spec_artifact ''red.png'' ''red'' 1 1 (spec_packed_buffer red_image)"
proof -
  have n: "str_nat 1 = ''1''" by (simp add: str_nat.simps)
  have 1: "image_to_c_array (\<lambda>p. Some red_image) [''images'', ''red.png''] =
     Some (join [CHR 0x0A] (spec_artifact ''red.png'' ''red'' 1 1 [0]))"
    using image_to_c_array_spec [of "\<lambda>p. Some red_image" "[''images'', ''red.png'']" red_image
        "''red''"] red_ident
    by (simp add: red_image_values name_of_def)
  have 2: "c_content ''red.png'' ''red'' red_image \<noteq>
     spec_artifact ''red.png'' ''red'' 1 1 (spec_packed_buffer red_image)"
    unfolding c_content_spec red_image_values spec_artifact_def spec_array_declaration_def
      red_rows
    by simp
  have 3: "spec_array_declaration ''red'' 1
        (spec_initializer_rows 1 1 (spec_packed_buffer red_image)) =
     [''const uint16_t red_data[1] = {'', ''    0xF800'', ''};'']"
    unfolding red_image_values red_rows spec_array_declaration_def n by simp
  have 4: "spec_array_declaration ''red'' 1 (spec_initializer_rows 1 1 [0]) =
     [''const uint16_t red_data[1] = {'', ''    0x0000'', ''};'']"
    unfolding red_rows spec_array_declaration_def n by simp
  show ?thesis by (intro conjI red_image_values(4) 3 1 4 2)
qed

end
